theory Spec2Isabelle
  imports Complex_Main
begin

section \<open>JavaScript values read by the controller\<close>

text \<open>
  The controller of \<^verbatim>\<open>static/app.js\<close> reads one kind of structured data: the value
  that \<^verbatim>\<open>JSON.parse\<close> builds from the response text. An object keeps its members in
  the order of the text; a number is kept as the text that JavaScript's conversion of
  numbers to strings gives for it (\<^verbatim>\<open>42\<close> is \<open>JNum ''42''\<close>, both zeros
  are \<open>JNum ''0''\<close>), since the code does nothing with a number but display it and
  test it for truth.
\<close>

datatype json =
    JNull
  | JBool bool
  | JNum string
  | JStr string
  | JArr "json list"
  | JObj "(string \<times> json) list"

text \<open>A value of JavaScript that may also be \<^verbatim>\<open>undefined\<close> (\<open>None\<close>).\<close>

type_synonym jsval = "json option"

datatype js_error = SyntaxError | TypeError

text \<open>
  \<^verbatim>\<open>JSON.parse\<close> keeps the last of several members with one key.
\<close>

definition own_property :: "(string \<times> json) list \<Rightarrow> string \<Rightarrow> jsval" where
  "own_property kvs k = map_of (rev kvs) k"

text \<open>
  \<^verbatim>\<open>v.k\<close> for the keys the controller reads (\<^verbatim>\<open>status\<close>, \<^verbatim>\<open>message\<close>,
  \<^verbatim>\<open>row_count\<close>, \<^verbatim>\<open>output_path\<close>, \<^verbatim>\<open>download_url\<close>), none of which a
  prototype defines: reading a property of \<^verbatim>\<open>null\<close> throws, an object gives its own
  member, every other value gives \<^verbatim>\<open>undefined\<close>.
\<close>

fun get_prop :: "json \<Rightarrow> string \<Rightarrow> js_error + jsval" where
  "get_prop JNull k = Inl TypeError"
| "get_prop (JObj kvs) k = Inr (own_property kvs k)"
| "get_prop v k = Inr None"

text \<open>The truth value JavaScript gives a value in \<^verbatim>\<open>||\<close> and \<^verbatim>\<open>if\<close>.\<close>

fun truthy :: "jsval \<Rightarrow> bool" where
  "truthy None = False"
| "truthy (Some JNull) = False"
| "truthy (Some (JBool b)) = b"
| "truthy (Some (JNum t)) = (t \<noteq> ''0'')"
| "truthy (Some (JStr s)) = (s \<noteq> [])"
| "truthy (Some (JArr xs)) = True"
| "truthy (Some (JObj kvs)) = True"

text \<open>
  The conversion to a string that an assignment to \<^verbatim>\<open>textContent\<close> applies. An array
  is joined with commas, a \<^verbatim>\<open>null\<close> element giving the empty string; a plain object
  is \<^verbatim>\<open>[object Object]\<close>, and an object with a member \<^verbatim>\<open>toString\<close> of its own
  (never callable in parsed JSON) has no primitive value: the conversion throws
  a TypeError, here \<open>None\<close>.
\<close>

fun to_string :: "json \<Rightarrow> string option"
  and join :: "json list \<Rightarrow> string option" where
  "to_string JNull = Some ''null''"
| "to_string (JBool b) = Some (if b then ''true'' else ''false'')"
| "to_string (JNum t) = Some t"
| "to_string (JStr s) = Some s"
| "to_string (JArr xs) = join xs"
| "to_string (JObj kvs) =
     (if own_property kvs ''toString'' = None then Some ''[object Object]'' else None)"
| "join [] = Some []"
| "join [x] = (if x = JNull then Some [] else to_string x)"
| "join (x # y # ys) =
     (case (if x = JNull then Some [] else to_string x) of
        None \<Rightarrow> None
      | Some a \<Rightarrow> (case join (y # ys) of
                    None \<Rightarrow> None
                  | Some b \<Rightarrow> Some (a @ '','' @ b)))"

text \<open>\<^verbatim>\<open>v || "literal"\<close> and \<^verbatim>\<open>v ?? "literal"\<close>.\<close>

fun or_else :: "jsval \<Rightarrow> string \<Rightarrow> json" where
  "or_else None d = JStr d"
| "or_else (Some v) d = (if truthy (Some v) then v else JStr d)"

fun nullish_else :: "jsval \<Rightarrow> string \<Rightarrow> json" where
  "nullish_else None d = JStr d"
| "nullish_else (Some JNull) d = JStr d"
| "nullish_else (Some v) d = v"

section \<open>The page and the controller's module state\<close>

type_synonym upload_file = string

record request =
  http_method :: string
  url :: string
  formData :: "(string \<times> upload_file) list"

text \<open>
  What the handlers read and write: the two file inputs, the text of the display
  elements, the width of the progress bar in percent, the \<^verbatim>\<open>disabled\<close> flags of the
  two buttons, the module variables \<^verbatim>\<open>downloadUrl\<close> and \<^verbatim>\<open>progressTimer\<close>,
  the interval timers of the host with the variable \<^verbatim>\<open>progress\<close> each callback
  closes over, and the requests sent so far.
\<close>

record page =
  salesFiles :: "upload_file list"
  peopleFiles :: "upload_file list"
  statusText :: string
  progressWidth :: real
  rowCount :: string
  outputPath :: string
  downloadDisabled :: bool
  runDisabled :: bool
  downloadUrl :: jsval
  progressTimer :: "nat option"
  intervals :: "nat \<rightharpoonup> real"
  lastHandle :: nat
  requests :: "request list"

definition setProgress :: "real \<Rightarrow> page \<Rightarrow> page" where
  "setProgress v s = s\<lparr>progressWidth := min 100 (max 0 v)\<rparr>"

definition resetOutput :: "page \<Rightarrow> page" where
  "resetOutput s =
     s\<lparr>rowCount := ''-'', outputPath := ''-'', downloadDisabled := True,
       downloadUrl := Some JNull\<rparr>"

text \<open>
  \<^verbatim>\<open>setInterval\<close> hands out a handle that was not used before, never zero; the new
  timer's \<^verbatim>\<open>progress\<close> starts at 5.
\<close>

definition startProgress :: "page \<Rightarrow> page" where
  "startProgress s =
     (let s1 = setProgress 5 s;
          s2 = s1\<lparr>statusText := ''Uploading...''\<rparr>;
          h = Suc (lastHandle s2)
      in s2\<lparr>lastHandle := h, intervals := (intervals s2)(h \<mapsto> 5), progressTimer := Some h\<rparr>)"

text \<open>
  One run of the interval callback of timer \<open>h\<close>, \<^verbatim>\<open>Math.random()\<close> returning \<open>r\<close>.
  Arithmetic on doubles rounds each result; \<open>fl\<close> is that rounding (the product with
  8, a power of two, is exact). A cleared timer does not fire.
\<close>

definition advance :: "(real \<Rightarrow> real) \<Rightarrow> real \<Rightarrow> real \<Rightarrow> real" where
  "advance fl r progress = min 90 (fl (progress + r * 8))"

definition interval_fired :: "(real \<Rightarrow> real) \<Rightarrow> nat \<Rightarrow> real \<Rightarrow> page \<Rightarrow> page" where
  "interval_fired fl h r s =
     (case intervals s h of
        None \<Rightarrow> s
      | Some progress \<Rightarrow>
          (let progress' = advance fl r progress;
               s1 = s\<lparr>intervals := (intervals s)(h \<mapsto> progress')\<rparr>;
               s2 = setProgress progress' s1
           in s2\<lparr>statusText := ''Processing...''\<rparr>))"

definition stopProgress :: "page \<Rightarrow> page" where
  "stopProgress s =
     (case progressTimer s of
        None \<Rightarrow> s
      | Some h \<Rightarrow>
          if h = 0 then s
          else s\<lparr>intervals := (intervals s)(h := None), progressTimer := None\<rparr>)"

section \<open>The submit handler\<close>

definition submit :: "page \<Rightarrow> page" where
  "submit s =
     (if length (salesFiles s) = 0 \<or> length (peopleFiles s) = 0
      then s\<lparr>statusText := ''Please select both files.''\<rparr>
      else
        (let s1 = resetOutput s;
             s2 = s1\<lparr>runDisabled := True\<rparr>;
             s3 = startProgress s2;
             fd = [(''sales_file'', hd (salesFiles s)), (''people_file'', hd (peopleFiles s))]
         in s3\<lparr>requests :=
                 requests s3 @ [\<lparr>http_method = ''POST'', url = ''/process'', formData = fd\<rparr>]\<rparr>))"

section \<open>Upload progress\<close>

record progress_event =
  lengthComputable :: bool
  loaded :: nat
  total :: nat

text \<open>
  \<^verbatim>\<open>event.loaded\<close> and \<^verbatim>\<open>event.total\<close> reach the script as doubles. With a total
  of zero the quotient is not a finite number: \<^verbatim>\<open>0/0\<close> is NaN, which the style
  declaration rejects as a width, and a positive \<^verbatim>\<open>loaded\<close> gives infinity, which
  \<^verbatim>\<open>setProgress\<close> clamps to 100.
\<close>

definition upload_onprogress :: "(real \<Rightarrow> real) \<Rightarrow> progress_event \<Rightarrow> page \<Rightarrow> page" where
  "upload_onprogress fl ev s =
     (if lengthComputable ev then
        (let s1 =
           (if total ev = 0 then (if loaded ev = 0 then s else setProgress 100 s)
            else
              (let uploadProgress = fl (fl (fl (real (loaded ev)) / fl (real (total ev))) * 40)
               in setProgress (max 5 uploadProgress) s))
         in s1\<lparr>statusText := ''Uploading...''\<rparr>)
      else s)"

section \<open>The completion handler\<close>

text \<open>
  The request as the handler sees it. \<open>responseJSON\<close> is what
  \<^verbatim>\<open>JSON.parse(xhr.responseText)\<close> gives, \<open>None\<close> when it throws a SyntaxError.
\<close>

record xhr =
  readyState :: nat
  status :: nat
  responseJSON :: "json option"

definition DONE :: nat where
  "DONE = 4"

text \<open>How a handler ends: it returns, or an exception leaves it.\<close>

datatype completion = Returned | Threw js_error

definition set_error_text :: "jsval \<Rightarrow> string option" where
  "set_error_text message = to_string (or_else message ''Processing failed.'')"

definition xhr_onreadystatechange :: "xhr \<Rightarrow> page \<Rightarrow> completion \<times> page" where
  "xhr_onreadystatechange x s =
     (if readyState x \<noteq> DONE then (Returned, s)
      else
        (let s1 = stopProgress s;
             s2 = s1\<lparr>runDisabled := False\<rparr>
         in
           if status x \<noteq> 200 then
             (let s3 = s2\<lparr>statusText := ''Error.''\<rparr>;
                  caught = s3\<lparr>outputPath := ''Processing failed.''\<rparr>;
                  s4 =
                    (case responseJSON x of
                       None \<Rightarrow> caught
                     | Some errorResponse \<Rightarrow>
                         (case get_prop errorResponse ''message'' of
                            Inl e \<Rightarrow> caught
                          | Inr message \<Rightarrow>
                              (case set_error_text message of
                                 None \<Rightarrow> caught
                               | Some t \<Rightarrow> s3\<lparr>outputPath := t\<rparr>)))
              in (Returned, setProgress 0 s4))
           else
             (case responseJSON x of
                None \<Rightarrow> (Threw SyntaxError, s2)
              | Some response \<Rightarrow>
                  (case get_prop response ''status'' of
                     Inl e \<Rightarrow> (Threw e, s2)
                   | Inr st \<Rightarrow>
                       if st \<noteq> Some (JStr ''ok'') then
                         (let s3 = s2\<lparr>statusText := ''Error.''\<rparr>
                          in case get_prop response ''message'' of
                               Inl e \<Rightarrow> (Threw e, s3)
                             | Inr message \<Rightarrow>
                                 (case set_error_text message of
                                    None \<Rightarrow> (Threw TypeError, s3)
                                  | Some t \<Rightarrow> (Returned, setProgress 0 (s3\<lparr>outputPath := t\<rparr>))))
                       else
                         (let s3 = setProgress 100 s2;
                              s4 = s3\<lparr>statusText := ''Completed.''\<rparr>
                          in case get_prop response ''row_count'' of
                               Inl e \<Rightarrow> (Threw e, s4)
                             | Inr rc \<Rightarrow>
                                 (case to_string (nullish_else rc ''-'') of
                                    None \<Rightarrow> (Threw TypeError, s4)
                                  | Some rct \<Rightarrow>
                                      (let s5 = s4\<lparr>rowCount := rct\<rparr>
                                       in case get_prop response ''output_path'' of
                                            Inl e \<Rightarrow> (Threw e, s5)
                                          | Inr op \<Rightarrow>
                                              (case to_string (nullish_else op ''-'') of
                                                 None \<Rightarrow> (Threw TypeError, s5)
                                               | Some opt \<Rightarrow>
                                                   (let s6 = s5\<lparr>outputPath := opt\<rparr>
                                                    in case get_prop response ''download_url'' of
                                                         Inl e \<Rightarrow> (Threw e, s6)
                                                       | Inr du \<Rightarrow>
                                                           (Returned,
                                                            s6\<lparr>downloadUrl := du,
                                                               downloadDisabled := False\<rparr>))))))))))"

section \<open>Notions the properties are stated with\<close>

text \<open>
  What the properties below need of the rounding of doubles: it is monotone, it leaves
  a double as it is, and every natural number up to \<open>2^53\<close> is a double.
\<close>

definition rounding :: "(real \<Rightarrow> real) \<Rightarrow> bool" where
  "rounding fl \<longleftrightarrow>
     (\<forall>x y. x \<le> y \<longrightarrow> fl x \<le> fl y) \<and>
     (\<forall>x. fl (fl x) = fl x) \<and>
     (\<forall>n::nat. n \<le> 2 ^ 53 \<longrightarrow> fl (real n) = real n)"

text \<open>A value that can be written to a display element: its conversion does not throw.\<close>

definition has_text :: "jsval \<Rightarrow> bool" where
  "has_text v = (case v of None \<Rightarrow> True | Some j \<Rightarrow> to_string j \<noteq> None)"

text \<open>
  The pages seen while timer \<open>h\<close> fires once for each draw of \<open>rs\<close>, and the values
  its variable \<^verbatim>\<open>progress\<close> takes from \<open>p\<close> on.
\<close>

fun ticks :: "(real \<Rightarrow> real) \<Rightarrow> nat \<Rightarrow> real list \<Rightarrow> page \<Rightarrow> page list" where
  "ticks fl h [] s = [s]"
| "ticks fl h (r # rs) s = s # ticks fl h rs (interval_fired fl h r s)"

fun progress_values :: "(real \<Rightarrow> real) \<Rightarrow> real \<Rightarrow> real list \<Rightarrow> real list" where
  "progress_values fl p [] = [p]"
| "progress_values fl p (r # rs) = p # progress_values fl (advance fl r p) rs"




subsection \<open>Sample pages and responses\<close>

text \<open>A page at rest with both files chosen, and the same page without the people file.\<close>

definition ready_page :: page where
  "ready_page =
     \<lparr>salesFiles = [''sales.csv''], peopleFiles = [''people.csv''], statusText = ''Ready'',
      progressWidth = 0, rowCount = ''-'', outputPath = ''-'', downloadDisabled = True,
      runDisabled = False, downloadUrl = Some JNull, progressTimer = None,
      intervals = Map.empty, lastHandle = 0, requests = []\<rparr>"

definition no_people_page :: page where
  "no_people_page = ready_page\<lparr>peopleFiles := []\<rparr>"

definition settled :: "nat \<Rightarrow> json option \<Rightarrow> xhr" where
  "settled st body = \<lparr>readyState = DONE, status = st, responseJSON = body\<rparr>"

definition ok_members :: "(string \<times> json) list" where
  "ok_members =
     [(''status'', JStr ''ok''), (''row_count'', JNum ''42''),
      (''output_path'', JStr ''/out/result.csv''),
      (''download_url'', JStr ''/download/result.csv'')]"

definition ok_body_full :: json where
  "ok_body_full = JObj ok_members"

definition ok_body_bare :: json where
  "ok_body_bare = JObj [(''status'', JStr ''ok'')]"



definition disk_full_body :: json where
  "disk_full_body = JObj [(''message'', JStr ''disk full'')]"

definition empty_message_body :: json where
  "empty_message_body = JObj [(''message'', JStr [])]"

text \<open>The page after a first submission has been answered with the full success body.\<close>

definition finished_page :: page where
  "finished_page = snd (xhr_onreadystatechange (settled 200 (Some ok_body_full)) (submit ready_page))"

text \<open>A success body whose row count is an object with a member \<^verbatim>\<open>toString\<close>.\<close>

definition odd_count_body :: json where
  "odd_count_body =
     JObj [(''status'', JStr ''ok''), (''row_count'', JObj [(''toString'', JNum ''1'')])]"





definition half_sent :: progress_event where
  "half_sent = \<lparr>lengthComputable = True, loaded = 512, total = 1024\<rparr>"

section \<open>What each helper leaves alone\<close>

lemma setProgress_frame:
  "salesFiles (setProgress v s) = salesFiles s"
  "peopleFiles (setProgress v s) = peopleFiles s"
  "statusText (setProgress v s) = statusText s"
  "rowCount (setProgress v s) = rowCount s"
  "outputPath (setProgress v s) = outputPath s"
  "downloadDisabled (setProgress v s) = downloadDisabled s"
  "runDisabled (setProgress v s) = runDisabled s"
  "downloadUrl (setProgress v s) = downloadUrl s"
  "progressTimer (setProgress v s) = progressTimer s"
  "intervals (setProgress v s) = intervals s"
  "lastHandle (setProgress v s) = lastHandle s"
  "requests (setProgress v s) = requests s"
  by (simp_all add: setProgress_def)

lemma setProgress_width: "progressWidth (setProgress v s) = min 100 (max 0 v)"
  by (simp add: setProgress_def)

lemma stopProgress_frame:
  "salesFiles (stopProgress s) = salesFiles s"
  "peopleFiles (stopProgress s) = peopleFiles s"
  "statusText (stopProgress s) = statusText s"
  "progressWidth (stopProgress s) = progressWidth s"
  "rowCount (stopProgress s) = rowCount s"
  "outputPath (stopProgress s) = outputPath s"
  "downloadDisabled (stopProgress s) = downloadDisabled s"
  "runDisabled (stopProgress s) = runDisabled s"
  "downloadUrl (stopProgress s) = downloadUrl s"
  "lastHandle (stopProgress s) = lastHandle s"
  "requests (stopProgress s) = requests s"
  by (simp_all add: stopProgress_def split: option.split)

lemma startProgress_frame:
  "salesFiles (startProgress s) = salesFiles s"
  "peopleFiles (startProgress s) = peopleFiles s"
  "rowCount (startProgress s) = rowCount s"
  "outputPath (startProgress s) = outputPath s"
  "downloadDisabled (startProgress s) = downloadDisabled s"
  "runDisabled (startProgress s) = runDisabled s"
  "downloadUrl (startProgress s) = downloadUrl s"
  "requests (startProgress s) = requests s"
  by (simp_all add: startProgress_def setProgress_def Let_def)

lemma startProgress_timer:
  "progressTimer (startProgress s) = Some (Suc (lastHandle s))"
  "intervals (startProgress s) (Suc (lastHandle s)) = Some 5"
  "progressWidth (startProgress s) = 5"
  "statusText (startProgress s) = ''Uploading...''"
  by (simp_all add: startProgress_def setProgress_def Let_def)

lemma settled_fields:
  "readyState (settled st body) = DONE"
  "status (settled st body) = st"
  "responseJSON (settled st body) = body"
  by (simp_all add: settled_def)

lemma submitted_ready_page:
  "rowCount (submit ready_page) = ''-''"
  "outputPath (submit ready_page) = ''-''"
  "downloadDisabled (submit ready_page)"
  "statusText (submit ready_page) = ''Uploading...''"
  "progressWidth (submit ready_page) = 5"
  "salesFiles (submit ready_page) = [''sales.csv'']"
  "peopleFiles (submit ready_page) = [''people.csv'']"
  by (simp_all add: submit_def ready_page_def Let_def startProgress_frame startProgress_timer
      resetOutput_def)

section \<open>JavaScript's conversions\<close>

lemma get_prop_object:
  "get_prop b k = Inr (Some v) \<Longrightarrow> \<exists>kvs. b = JObj kvs \<and> own_property kvs k = Some v"
  by (cases b) simp_all

lemma falsy_or_else: "\<not> truthy m \<Longrightarrow> or_else m d = JStr d"
  by (cases m) simp_all

lemma set_error_text_falsy: "\<not> truthy m \<Longrightarrow> set_error_text m = Some ''Processing failed.''"
  by (simp add: set_error_text_def falsy_or_else)

lemma set_error_text_truthy: "truthy (Some v) \<Longrightarrow> set_error_text (Some v) = to_string v"
  by (simp add: set_error_text_def)

lemma error_text_shown:
  assumes "set_error_text m = Some t"
  shows "t = ''Processing failed.'' \<or>
         (\<exists>v. m = Some v \<and> truthy (Some v) \<and> to_string v = Some t)"
proof (cases "truthy m")
  case False
  then show ?thesis using assms by (simp add: set_error_text_falsy)
next
  case True
  then obtain v where "m = Some v" by (cases m) simp_all
  then show ?thesis using assms True by (simp add: set_error_text_truthy)
qed


text \<open>
  Every value but an object with a member \<^verbatim>\<open>toString\<close> of its own, or an array that
  holds one, has a text: in particular the strings and numbers the server's answers carry.
\<close>

lemma has_text_primitive:
  "has_text None" "has_text (Some JNull)" "has_text (Some (JBool b))"
  "has_text (Some (JNum n))" "has_text (Some (JStr u))"
  "own_property kvs ''toString'' = None \<Longrightarrow> has_text (Some (JObj kvs))"
  by (simp_all add: has_text_def)

lemma has_text_nullish: "has_text v \<Longrightarrow> \<exists>t. to_string (nullish_else v d) = Some t"
  by (cases "(v, d)" rule: nullish_else.cases) (simp_all add: has_text_def)



lemma ok_members_props:
  "own_property ok_members ''status'' = Some (JStr ''ok'')"
  "own_property ok_members ''row_count'' = Some (JNum ''42'')"
  "own_property ok_members ''output_path'' = Some (JStr ''/out/result.csv'')"
  "own_property ok_members ''download_url'' = Some (JStr ''/download/result.csv'')"
  by (simp_all add: own_property_def ok_members_def)

section \<open>The branches of the completion handler\<close>

lemma non_200_branch:
  assumes "readyState x = DONE" and "status x \<noteq> 200"
  shows "xhr_onreadystatechange x s =
     (Returned, setProgress 0
        (case responseJSON x of
           None \<Rightarrow>
             (stopProgress s)\<lparr>runDisabled := False, statusText := ''Error.'',
               outputPath := ''Processing failed.''\<rparr>
         | Some b \<Rightarrow>
            (case get_prop b ''message'' of
               Inl e \<Rightarrow>
                 (stopProgress s)\<lparr>runDisabled := False, statusText := ''Error.'',
                   outputPath := ''Processing failed.''\<rparr>
             | Inr m \<Rightarrow>
                (case set_error_text m of
                   None \<Rightarrow>
                     (stopProgress s)\<lparr>runDisabled := False, statusText := ''Error.'',
                       outputPath := ''Processing failed.''\<rparr>
                 | Some t \<Rightarrow>
                     (stopProgress s)\<lparr>runDisabled := False, statusText := ''Error.'',
                       outputPath := t\<rparr>))))"
  using assms by (simp add: xhr_onreadystatechange_def Let_def)


lemma success_branch:
  assumes "readyState x = DONE" and "status x = 200" and "responseJSON x = Some (JObj kvs)"
    and "own_property kvs ''status'' = Some (JStr ''ok'')"
  shows "xhr_onreadystatechange x s =
     (case to_string (nullish_else (own_property kvs ''row_count'') ''-'') of
        None \<Rightarrow>
          (Threw TypeError,
           (setProgress 100 ((stopProgress s)\<lparr>runDisabled := False\<rparr>))
             \<lparr>statusText := ''Completed.''\<rparr>)
      | Some rct \<Rightarrow>
          (case to_string (nullish_else (own_property kvs ''output_path'') ''-'') of
             None \<Rightarrow>
               (Threw TypeError,
                (setProgress 100 ((stopProgress s)\<lparr>runDisabled := False\<rparr>))
                  \<lparr>statusText := ''Completed.'', rowCount := rct\<rparr>)
           | Some opt \<Rightarrow>
               (Returned,
                (setProgress 100 ((stopProgress s)\<lparr>runDisabled := False\<rparr>))
                  \<lparr>statusText := ''Completed.'', rowCount := rct, outputPath := opt,
                    downloadUrl := own_property kvs ''download_url'',
                    downloadDisabled := False\<rparr>)))"
  using assms by (simp add: xhr_onreadystatechange_def Let_def cong: option.case_cong)


lemma non_200_output:
  assumes "readyState x = DONE" and "status x \<noteq> 200"
  shows "outputPath (snd (xhr_onreadystatechange x s)) = ''Processing failed.'' \<or>
         (\<exists>b v. responseJSON x = Some b \<and> get_prop b ''message'' = Inr (Some v) \<and>
            truthy (Some v) \<and>
            to_string v = Some (outputPath (snd (xhr_onreadystatechange x s))))"
proof (cases "responseJSON x")
  case None
  then show ?thesis by (simp add: non_200_branch [OF assms] setProgress_frame)
next
  case (Some b)
  show ?thesis
  proof (cases "get_prop b ''message''")
    case (Inl e)
    then show ?thesis using Some by (simp add: non_200_branch [OF assms] setProgress_frame)
  next
    case (Inr m)
    show ?thesis
    proof (cases "set_error_text m")
      case None
      then show ?thesis
        using Some Inr by (simp add: non_200_branch [OF assms] setProgress_frame)
    next
      case (Some t)
      then have out: "outputPath (snd (xhr_onreadystatechange x s)) = t"
        using \<open>responseJSON x = Some b\<close> Inr
        by (simp add: non_200_branch [OF assms] setProgress_frame)
      from error_text_shown [OF Some] show ?thesis
        unfolding out using \<open>responseJSON x = Some b\<close> Inr by auto
    qed
  qed
qed


lemma finished_page_fields:
  "salesFiles finished_page = [''sales.csv'']"
  "peopleFiles finished_page = [''people.csv'']"
  "rowCount finished_page = ''42''"
  "outputPath finished_page = ''/out/result.csv''"
  "downloadUrl finished_page = Some (JStr ''/download/result.csv'')"
  "\<not> downloadDisabled finished_page"
proof -
  have b: "responseJSON (settled 200 (Some ok_body_full)) = Some (JObj ok_members)"
    by (simp add: settled_fields ok_body_full_def)
  note br = success_branch [OF settled_fields(1) settled_fields(2) b ok_members_props(1),
      of "submit ready_page"]
  show "salesFiles finished_page = [''sales.csv'']"
    "peopleFiles finished_page = [''people.csv'']"
    "rowCount finished_page = ''42''"
    "outputPath finished_page = ''/out/result.csv''"
    "downloadUrl finished_page = Some (JStr ''/download/result.csv'')"
    "\<not> downloadDisabled finished_page"
    by (simp_all add: finished_page_def br ok_members_props setProgress_frame stopProgress_frame
        submitted_ready_page)
qed

section \<open>Between submission and response\<close>






section \<open>Properties of the controller\<close>

subsection \<open>Malformed bodies\<close>

text \<open>
  C1. A terminal response whose body is not the expected JSON structure should end in the
  generic message \<^verbatim>\<open>Processing failed.\<close> with no exception leaving the handler. Below
  status 200 the handler does so; with status 200 it does not: the body is parsed outside
  any \<^verbatim>\<open>try\<close>. For a submission from the sample page answered with status 200 and a
  text that is not JSON, a SyntaxError leaves the handler, the output path still reads
  \<^verbatim>\<open>-\<close>, and status text and progress stay where the upload left them; a body
  \<^verbatim>\<open>null\<close> and a success body whose row count has no text end in a TypeError.
\<close>

theorem unparseable_200_escapes:
  "fst (xhr_onreadystatechange (settled 200 None) (submit ready_page)) = Threw SyntaxError \<and>
   outputPath (snd (xhr_onreadystatechange (settled 200 None) (submit ready_page))) = ''-'' \<and>
   statusText (snd (xhr_onreadystatechange (settled 200 None) (submit ready_page)))
     = ''Uploading...'' \<and>
   progressWidth (snd (xhr_onreadystatechange (settled 200 None) (submit ready_page))) = 5 \<and>
   fst (xhr_onreadystatechange (settled 200 (Some JNull)) (submit ready_page)) = Threw TypeError \<and>
   fst (xhr_onreadystatechange (settled 200 (Some odd_count_body)) (submit ready_page))
     = Threw TypeError"
proof -
  have e: "xhr_onreadystatechange (settled 200 None) (submit ready_page) =
        (Threw SyntaxError, (stopProgress (submit ready_page))\<lparr>runDisabled := False\<rparr>)"
    by (simp add: xhr_onreadystatechange_def settled_fields Let_def)
  have n: "fst (xhr_onreadystatechange (settled 200 (Some JNull)) (submit ready_page))
        = Threw TypeError"
    by (simp add: xhr_onreadystatechange_def settled_fields Let_def)
  have b: "responseJSON (settled 200 (Some odd_count_body)) =
        Some (JObj [(''status'', JStr ''ok''), (''row_count'', JObj [(''toString'', JNum ''1'')])])"
    by (simp add: settled_fields odd_count_body_def)
  have st: "own_property [(''status'', JStr ''ok''), (''row_count'', JObj [(''toString'', JNum ''1'')])]
        ''status'' = Some (JStr ''ok'')"
    by (simp add: own_property_def)
  have o: "fst (xhr_onreadystatechange (settled 200 (Some odd_count_body)) (submit ready_page))
        = Threw TypeError"
    by (simp add: success_branch [OF settled_fields(1) settled_fields(2) b st] own_property_def)
  show ?thesis by (simp add: e n o submitted_ready_page stopProgress_frame)
qed

subsection \<open>Success\<close>

text \<open>
  C2, as amended. After a successful response (status 200, a body whose \<^verbatim>\<open>status\<close> is
  \<^verbatim>\<open>ok\<close>) the progress shown is 100 and the submit control is enabled; once row count
  and output path have been written, the download control is enabled as well, whether or
  not the body has a \<^verbatim>\<open>download_url\<close>.
\<close>

theorem success_enables_download:
  assumes "readyState x = DONE" and "status x = 200" and "responseJSON x = Some (JObj kvs)"
    and "own_property kvs ''status'' = Some (JStr ''ok'')"
  shows "progressWidth (snd (xhr_onreadystatechange x s)) = 100 \<and>
         \<not> runDisabled (snd (xhr_onreadystatechange x s)) \<and>
         (has_text (own_property kvs ''row_count'') \<and>
          has_text (own_property kvs ''output_path'') \<longrightarrow>
            fst (xhr_onreadystatechange x s) = Returned \<and>
            \<not> downloadDisabled (snd (xhr_onreadystatechange x s)))"
proof -
  note br = success_branch [OF assms, of s]
  have c1: "progressWidth (snd (xhr_onreadystatechange x s)) = 100"
    by (simp add: br setProgress_frame setProgress_width stopProgress_frame split: option.split)
  have c2: "\<not> runDisabled (snd (xhr_onreadystatechange x s))"
    by (simp add: br setProgress_frame setProgress_width stopProgress_frame split: option.split)
  have c3: "fst (xhr_onreadystatechange x s) = Returned \<and>
            \<not> downloadDisabled (snd (xhr_onreadystatechange x s))"
    if "has_text (own_property kvs ''row_count'')" and "has_text (own_property kvs ''output_path'')"
  proof -
    from has_text_nullish [OF that(1)] obtain rct
      where rct: "to_string (nullish_else (own_property kvs ''row_count'') ''-'') = Some rct" ..
    from has_text_nullish [OF that(2)] obtain opt
      where opt: "to_string (nullish_else (own_property kvs ''output_path'') ''-'') = Some opt" ..
    show ?thesis by (simp add: br rct opt)
  qed
  show ?thesis using c1 c2 c3 by blast
qed

theorem success_enables_download_witness:
  "readyState (settled 200 (Some ok_body_bare)) = DONE \<and>
   status (settled 200 (Some ok_body_bare)) = 200 \<and>
   get_prop ok_body_bare ''status'' = Inr (Some (JStr ''ok'')) \<and>
   progressWidth (snd (xhr_onreadystatechange (settled 200 (Some ok_body_bare)) (submit ready_page)))
     = 100 \<and>
   \<not> runDisabled (snd (xhr_onreadystatechange (settled 200 (Some ok_body_bare)) (submit ready_page))) \<and>
   \<not> downloadDisabled
       (snd (xhr_onreadystatechange (settled 200 (Some ok_body_bare)) (submit ready_page)))"
proof -
  have b: "responseJSON (settled 200 (Some ok_body_bare)) = Some (JObj [(''status'', JStr ''ok'')])"
    by (simp add: settled_fields ok_body_bare_def)
  have p: "own_property [(''status'', JStr ''ok'')] ''status'' = Some (JStr ''ok'')"
    "own_property [(''status'', JStr ''ok'')] ''row_count'' = None"
    "own_property [(''status'', JStr ''ok'')] ''output_path'' = None"
    by (simp_all add: own_property_def)
  note th = success_enables_download [OF settled_fields(1) settled_fields(2) b p(1),
      of "submit ready_page"]
  have g: "get_prop ok_body_bare ''status'' = Inr (Some (JStr ''ok''))"
    by (simp add: ok_body_bare_def p)
  have "has_text None" by (simp add: has_text_def)
  with th have "\<not> downloadDisabled
       (snd (xhr_onreadystatechange (settled 200 (Some ok_body_bare)) (submit ready_page)))"
    by (simp add: p)
  with th g settled_fields(1) settled_fields(2) show ?thesis by blast
qed

text \<open>
  The claim as first stated ties the download control to the presence of
  \<^verbatim>\<open>download_url\<close>. A success body with nothing but its status has no such member,
  and the control is enabled all the same.
\<close>

theorem download_enabled_without_url:
  "status (settled 200 (Some ok_body_bare)) = 200 \<and>
   get_prop ok_body_bare ''status'' = Inr (Some (JStr ''ok'')) \<and>
   get_prop ok_body_bare ''download_url'' = Inr None \<and>
   \<not> downloadDisabled
       (snd (xhr_onreadystatechange (settled 200 (Some ok_body_bare)) (submit ready_page)))"
proof -
  have b: "responseJSON (settled 200 (Some ok_body_bare)) = Some (JObj [(''status'', JStr ''ok'')])"
    by (simp add: settled_fields ok_body_bare_def)
  have p: "own_property [(''status'', JStr ''ok'')] ''status'' = Some (JStr ''ok'')"
    "own_property [(''status'', JStr ''ok'')] ''row_count'' = None"
    "own_property [(''status'', JStr ''ok'')] ''output_path'' = None"
    "own_property [(''status'', JStr ''ok'')] ''download_url'' = None"
    by (simp_all add: own_property_def)
  have "\<not> downloadDisabled
       (snd (xhr_onreadystatechange (settled 200 (Some ok_body_bare)) (submit ready_page)))"
    by (simp add: success_branch [OF settled_fields(1) settled_fields(2) b p(1)] p)
  then show ?thesis by (simp add: settled_fields ok_body_bare_def p)
qed

subsection \<open>Submitting without both files\<close>

text \<open>
  C3. When either file input has no selection, the submit handler sends no request and
  sets the status text to \<^verbatim>\<open>Please select both files.\<close>; it leaves the submit
  control as it was (an enabled control stays enabled), starts no timer and does not
  touch the progress bar.
\<close>

theorem submit_without_files:
  assumes "salesFiles s = [] \<or> peopleFiles s = []"
  shows "requests (submit s) = requests s \<and>
         statusText (submit s) = ''Please select both files.'' \<and>
         runDisabled (submit s) = runDisabled s \<and>
         progressTimer (submit s) = progressTimer s \<and>
         intervals (submit s) = intervals s \<and>
         lastHandle (submit s) = lastHandle s \<and>
         progressWidth (submit s) = progressWidth s"
  using assms by (auto simp add: submit_def)

theorem submit_without_files_witness:
  "(salesFiles no_people_page = [] \<or> peopleFiles no_people_page = []) \<and>
   requests (submit no_people_page) = [] \<and>
   statusText (submit no_people_page) = ''Please select both files.'' \<and>
   \<not> runDisabled (submit no_people_page) \<and>
   progressTimer (submit no_people_page) = None"
  using submit_without_files [of no_people_page]
  by (simp add: no_people_page_def ready_page_def)

subsection \<open>Responses with a status other than 200\<close>

text \<open>
  C4, as amended. After a terminal response whose status is not 200, whatever the body,
  the handler returns with the progress at 0, the submit control enabled and the status
  text \<^verbatim>\<open>Error.\<close>. The message shown is the text of the body's \<^verbatim>\<open>message\<close> when
  the body parses, that member is truthy (for a string: not empty) and converts to text;
  in every other case it is \<^verbatim>\<open>Processing failed.\<close>
\<close>

theorem non_200_settles_as_error:
  assumes "readyState x = DONE" and "status x \<noteq> 200"
  shows "fst (xhr_onreadystatechange x s) = Returned \<and>
         progressWidth (snd (xhr_onreadystatechange x s)) = 0 \<and>
         \<not> runDisabled (snd (xhr_onreadystatechange x s)) \<and>
         statusText (snd (xhr_onreadystatechange x s)) = ''Error.'' \<and>
         (\<forall>b v t. responseJSON x = Some b \<and> get_prop b ''message'' = Inr (Some v) \<and>
                  truthy (Some v) \<and> to_string v = Some t \<longrightarrow>
                  outputPath (snd (xhr_onreadystatechange x s)) = t) \<and>
         ((\<forall>b v. responseJSON x = Some b \<and> get_prop b ''message'' = Inr (Some v) \<longrightarrow>
                  \<not> truthy (Some v) \<or> to_string v = None) \<longrightarrow>
            outputPath (snd (xhr_onreadystatechange x s)) = ''Processing failed.'')"
proof -
  note br = non_200_branch [OF assms, of s]
  have basic: "fst (xhr_onreadystatechange x s) = Returned \<and>
         progressWidth (snd (xhr_onreadystatechange x s)) = 0 \<and>
         \<not> runDisabled (snd (xhr_onreadystatechange x s)) \<and>
         statusText (snd (xhr_onreadystatechange x s)) = ''Error.''"
    by (simp add: br setProgress_frame setProgress_width split: option.split sum.split)
  have pos: "outputPath (snd (xhr_onreadystatechange x s)) = t"
    if "responseJSON x = Some b" and "get_prop b ''message'' = Inr (Some v)"
      and "truthy (Some v)" and "to_string v = Some t" for b v t
    using that by (simp add: br setProgress_frame set_error_text_truthy)
  have neg: "outputPath (snd (xhr_onreadystatechange x s)) = ''Processing failed.''"
    if none: "\<forall>b v. responseJSON x = Some b \<and> get_prop b ''message'' = Inr (Some v) \<longrightarrow>
                \<not> truthy (Some v) \<or> to_string v = None"
  proof -
    from non_200_output [OF assms, of s] show ?thesis
    proof
      assume "outputPath (snd (xhr_onreadystatechange x s)) = ''Processing failed.''"
      then show ?thesis .
    next
      assume "\<exists>b v. responseJSON x = Some b \<and> get_prop b ''message'' = Inr (Some v) \<and>
            truthy (Some v) \<and>
            to_string v = Some (outputPath (snd (xhr_onreadystatechange x s)))"
      with none show ?thesis by fastforce
    qed
  qed
  show ?thesis using basic pos neg by blast
qed

theorem non_200_settles_as_error_witness:
  "readyState (settled 500 (Some disk_full_body)) = DONE \<and>
   status (settled 500 (Some disk_full_body)) \<noteq> 200 \<and>
   progressWidth (snd (xhr_onreadystatechange (settled 500 (Some disk_full_body)) (submit ready_page)))
     = 0 \<and>
   \<not> runDisabled
       (snd (xhr_onreadystatechange (settled 500 (Some disk_full_body)) (submit ready_page))) \<and>
   statusText (snd (xhr_onreadystatechange (settled 500 (Some disk_full_body)) (submit ready_page)))
     = ''Error.'' \<and>
   outputPath (snd (xhr_onreadystatechange (settled 500 (Some disk_full_body)) (submit ready_page)))
     = ''disk full''"
proof -
  have h1: "readyState (settled 500 (Some disk_full_body)) = DONE" by (simp add: settled_fields)
  have h2: "status (settled 500 (Some disk_full_body)) \<noteq> 200" by (simp add: settled_fields)
  have m: "get_prop disk_full_body ''message'' = Inr (Some (JStr ''disk full''))"
    by (simp add: disk_full_body_def own_property_def)
  note th = non_200_settles_as_error [OF h1 h2, of "submit ready_page"]
  from th have "outputPath
      (snd (xhr_onreadystatechange (settled 500 (Some disk_full_body)) (submit ready_page)))
      = ''disk full''"
    using m by (simp add: settled_fields)
  with th h1 h2 show ?thesis by blast
qed

text \<open>
  The claim as first stated shows the body's message whenever the body has one. A body
  whose message is the empty string has one, and the generic text is shown instead.
\<close>

theorem non_200_empty_message_counterexample:
  "status (settled 500 (Some empty_message_body)) \<noteq> 200 \<and>
   get_prop empty_message_body ''message'' = Inr (Some (JStr [])) \<and>
   outputPath (snd (xhr_onreadystatechange (settled 500 (Some empty_message_body)) (submit ready_page)))
     = ''Processing failed.''"
proof -
  have m: "get_prop empty_message_body ''message'' = Inr (Some (JStr []))"
    by (simp add: empty_message_body_def own_property_def)
  have "xhr_onreadystatechange (settled 500 (Some empty_message_body)) (submit ready_page) =
        (Returned, setProgress 0 ((stopProgress (submit ready_page))
           \<lparr>runDisabled := False, statusText := ''Error.'', outputPath := ''Processing failed.''\<rparr>))"
    by (simp add: non_200_branch settled_fields m set_error_text_falsy)
  then show ?thesis using m by (simp add: setProgress_frame settled_fields)
qed

subsection \<open>Status 200 with a body that reports a failure\<close>




subsection \<open>The result display after a success\<close>




subsection \<open>Upload progress\<close>

lemma rounding_mono: "rounding fl \<Longrightarrow> x \<le> y \<Longrightarrow> fl x \<le> fl y"
  by (simp add: rounding_def)

lemma rounding_idem: "rounding fl \<Longrightarrow> fl (fl x) = fl x"
  by (simp add: rounding_def)

lemma rounding_nat: "rounding fl \<Longrightarrow> n \<le> 2 ^ 53 \<Longrightarrow> fl (real n) = real n"
  by (simp add: rounding_def)

lemma rounding_consts:
  assumes "rounding fl"
  shows "fl 0 = 0" "fl 1 = 1" "fl 5 = 5" "fl 20 = 20" "fl 40 = 40" "fl 90 = 90"
  using rounding_nat [OF assms, of 0] rounding_nat [OF assms, of 1]
    rounding_nat [OF assms, of 5] rounding_nat [OF assms, of 20]
    rounding_nat [OF assms, of 40] rounding_nat [OF assms, of 90]
  by simp_all

text \<open>
  C7. An upload-progress event with computable length sets the progress shown to the
  larger of 5 and \<^verbatim>\<open>(loaded / total) * 40\<close>, a value between 5 and 40; a quotient of
  one half gives exactly 20. The events are those a request delivers: a total that is
  not zero (otherwise the length is not reported as computable) and no more bytes sent
  than the total. The arithmetic is that of doubles, under any rounding that is monotone
  and exact on small integers.
\<close>

theorem upload_progress_scaled:
  assumes "rounding fl" and "lengthComputable ev"
    and "0 < total ev" and "loaded ev \<le> total ev"
  shows "progressWidth (upload_onprogress fl ev s) =
           max 5 (fl (fl (fl (real (loaded ev)) / fl (real (total ev))) * 40)) \<and>
         5 \<le> progressWidth (upload_onprogress fl ev s) \<and>
         progressWidth (upload_onprogress fl ev s) \<le> 40 \<and>
         (fl (fl (real (loaded ev)) / fl (real (total ev))) = 1 / 2 \<longrightarrow>
            progressWidth (upload_onprogress fl ev s) = 20)"
proof -
  let ?l = "fl (real (loaded ev))" and ?t = "fl (real (total ev))"
  let ?q = "fl (?l / ?t)"
  let ?u = "fl (?q * 40)"
  have t1: "1 \<le> ?t"
    using rounding_mono [OF assms(1), of 1 "real (total ev)"] rounding_consts(2) [OF assms(1)]
      assms(3) by simp
  have lt: "?l \<le> ?t"
    using rounding_mono [OF assms(1), of "real (loaded ev)" "real (total ev)"] assms(4) by simp
  have "?l / ?t \<le> 1" using lt t1 by simp
  then have q1: "?q \<le> 1"
    using rounding_mono [OF assms(1), of "?l / ?t" 1] rounding_consts(2) [OF assms(1)] by simp
  then have "?q * 40 \<le> 40" by simp
  then have u40: "?u \<le> 40"
    using rounding_mono [OF assms(1), of "?q * 40" 40] rounding_consts(5) [OF assms(1)] by simp
  have w: "progressWidth (upload_onprogress fl ev s) = max 5 ?u"
    using assms(2,3) u40 by (simp add: upload_onprogress_def Let_def setProgress_width)
  have half: "max 5 ?u = 20" if q: "?q = 1 / 2"
  proof -
    have "?q * 40 = 20" unfolding q by simp
    then have "?u = 20" using rounding_consts(4) [OF assms(1)] by (simp only:)
    then show ?thesis by simp
  qed
  show ?thesis using w u40 half by auto
qed

theorem upload_progress_scaled_witness:
  "rounding id \<and> lengthComputable half_sent \<and> 0 < total half_sent \<and>
   loaded half_sent \<le> total half_sent \<and>
   id (id (real (loaded half_sent)) / id (real (total half_sent))) = 1 / 2 \<and>
   progressWidth (upload_onprogress id half_sent ready_page) = 20"
  using upload_progress_scaled [of id half_sent ready_page]
  by (simp add: rounding_def half_sent_def)

subsection \<open>The simulated progress\<close>

lemma advance_step:
  assumes "rounding fl" and "fl p = p" and "p \<le> 90" and "0 \<le> r"
  shows "p \<le> advance fl r p" and "advance fl r p \<le> 90"
    and "fl (advance fl r p) = advance fl r p"
proof -
  have "p \<le> p + r * 8" using assms(4) by simp
  then have "fl p \<le> fl (p + r * 8)" by (rule rounding_mono [OF assms(1)])
  then show "p \<le> advance fl r p" using assms(2,3) by (simp add: advance_def)
  show "advance fl r p \<le> 90" by (simp add: advance_def)
  show "fl (advance fl r p) = advance fl r p"
    using rounding_idem [OF assms(1)] rounding_consts(6) [OF assms(1)]
    by (simp add: advance_def min_def)
qed

lemma progress_values_hd: "hd (progress_values fl p rs) = p"
  by (cases rs) simp_all

lemma progress_values_bounds:
  assumes "rounding fl"
  shows "fl p = p \<Longrightarrow> lo \<le> p \<Longrightarrow> p \<le> 90 \<Longrightarrow> \<forall>r\<in>set rs. 0 \<le> r \<and> r < 1 \<Longrightarrow>
         sorted (progress_values fl p rs) \<and>
         (\<forall>v\<in>set (progress_values fl p rs). lo \<le> v \<and> v \<le> 90)"
proof (induction rs arbitrary: p lo)
  case Nil
  then show ?case by simp
next
  case (Cons r rs)
  from Cons.prems have r: "0 \<le> r" by simp
  note st = advance_step [OF assms Cons.prems(1) Cons.prems(3) r]
  have "lo \<le> advance fl r p" using st(1) Cons.prems(2) by simp
  with Cons.IH [OF st(3) _ st(2)] Cons.prems(4)
  have ih: "sorted (progress_values fl (advance fl r p) rs) \<and>
            (\<forall>v\<in>set (progress_values fl (advance fl r p) rs). lo \<le> v \<and> v \<le> 90)"
    by simp
  have "\<forall>v\<in>set (progress_values fl (advance fl r p) rs). advance fl r p \<le> v"
    using Cons.IH [OF st(3) order_refl st(2)] Cons.prems(4) by simp
  then have "\<forall>v\<in>set (progress_values fl (advance fl r p) rs). p \<le> v"
    using st(1) by auto
  with ih Cons.prems(2,3) show ?case by simp
qed

lemma progress_values_step:
  "i < length rs \<Longrightarrow>
   progress_values fl p rs ! Suc i = min 90 (fl (progress_values fl p rs ! i + rs ! i * 8))"
proof (induction rs arbitrary: p i)
  case Nil
  then show ?case by simp
next
  case (Cons r rs)
  show ?case
  proof (cases i)
    case 0
    then show ?thesis
      by (cases rs) (simp_all add: advance_def)
  next
    case (Suc j)
    with Cons.prems have "j < length rs" by simp
    from Cons.IH [OF this] Suc show ?thesis by simp
  qed
qed

lemma ticks_intervals:
  "intervals s h = Some p \<Longrightarrow>
   map (\<lambda>t. intervals t h) (ticks fl h rs s) = map Some (progress_values fl p rs)"
proof (induction rs arbitrary: s p)
  case Nil
  then show ?case by simp
next
  case (Cons r rs)
  have "intervals (interval_fired fl h r s) h = Some (advance fl r p)"
    using Cons.prems by (simp add: interval_fired_def Let_def setProgress_frame)
  from Cons.IH [OF this] Cons.prems show ?case by simp
qed

lemma ticks_widths:
  "intervals s h = Some p \<Longrightarrow> progressWidth s = p \<Longrightarrow>
   \<forall>v\<in>set (progress_values fl p rs). 0 \<le> v \<and> v \<le> 100 \<Longrightarrow>
   map progressWidth (ticks fl h rs s) = progress_values fl p rs"
proof (induction rs arbitrary: s p)
  case Nil
  then show ?case by simp
next
  case (Cons r rs)
  let ?s' = "interval_fired fl h r s"
  have i: "intervals ?s' h = Some (advance fl r p)"
    using Cons.prems(1) by (simp add: interval_fired_def Let_def setProgress_frame)
  have "advance fl r p \<in> set (progress_values fl (advance fl r p) rs)"
    by (cases rs) simp_all
  with Cons.prems(3) have b: "0 \<le> advance fl r p \<and> advance fl r p \<le> 100" by simp
  have w: "progressWidth ?s' = advance fl r p"
    using Cons.prems(1) b by (simp add: interval_fired_def Let_def setProgress_width)
  from Cons.IH [OF i w] Cons.prems show ?case by simp
qed

text \<open>
  C8. The timer that \<^verbatim>\<open>startProgress\<close> sets up starts its \<^verbatim>\<open>progress\<close> at 5; each
  tick, with a draw \<open>r\<close> of \<^verbatim>\<open>Math.random()\<close> in \<open>[0, 1)\<close>, replaces it by the
  smaller of 90 and the previous value plus \<open>r * 8\<close>, an increment in \<open>[0, 8)\<close>. The
  values never decrease and never exceed 90, they are the widths the ticks show, and
  whatever \<^verbatim>\<open>setProgress\<close> is given, the width it writes lies between 0 and 100.
\<close>

theorem simulated_progress_trace:
  assumes "rounding fl" and "\<forall>r\<in>set rs. 0 \<le> r \<and> r < 1"
  shows "progressTimer (startProgress s) = Some (Suc (lastHandle s)) \<and>
         map (\<lambda>t. intervals t (Suc (lastHandle s)))
             (ticks fl (Suc (lastHandle s)) rs (startProgress s))
           = map Some (progress_values fl 5 rs) \<and>
         map progressWidth (ticks fl (Suc (lastHandle s)) rs (startProgress s))
           = progress_values fl 5 rs \<and>
         hd (progress_values fl 5 rs) = 5 \<and>
         (\<forall>i<length rs. 0 \<le> rs ! i * 8 \<and> rs ! i * 8 < 8 \<and>
            progress_values fl 5 rs ! Suc i =
              min 90 (fl (progress_values fl 5 rs ! i + rs ! i * 8))) \<and>
         sorted (progress_values fl 5 rs) \<and>
         (\<forall>v\<in>set (progress_values fl 5 rs). v \<le> 90) \<and>
         (\<forall>v t. 0 \<le> progressWidth (setProgress v t) \<and> progressWidth (setProgress v t) \<le> 100)"
proof -
  have b: "sorted (progress_values fl 5 rs) \<and>
           (\<forall>v\<in>set (progress_values fl 5 rs). 5 \<le> v \<and> v \<le> 90)"
    using progress_values_bounds [OF assms(1) rounding_consts(3) [OF assms(1)], of 5 rs] assms(2)
    by simp
  then have c: "\<forall>v\<in>set (progress_values fl 5 rs). 0 \<le> v \<and> v \<le> 100" by auto
  have i: "map (\<lambda>t. intervals t (Suc (lastHandle s)))
             (ticks fl (Suc (lastHandle s)) rs (startProgress s))
           = map Some (progress_values fl 5 rs)"
    by (rule ticks_intervals) (rule startProgress_timer)
  have w: "map progressWidth (ticks fl (Suc (lastHandle s)) rs (startProgress s))
           = progress_values fl 5 rs"
    by (rule ticks_widths [OF startProgress_timer(2) startProgress_timer(3) c])
  have st: "\<forall>i<length rs. 0 \<le> rs ! i * 8 \<and> rs ! i * 8 < 8 \<and>
            progress_values fl 5 rs ! Suc i =
              min 90 (fl (progress_values fl 5 rs ! i + rs ! i * 8))"
    using assms(2) progress_values_step [of _ rs fl 5] by (simp add: all_set_conv_all_nth)
  have cl: "\<forall>v t. 0 \<le> progressWidth (setProgress v t) \<and> progressWidth (setProgress v t) \<le> 100"
    by (simp add: setProgress_width)
  show ?thesis
    using b i w st cl startProgress_timer(1) [of s] progress_values_hd [of fl 5 rs] by simp
qed

theorem simulated_progress_trace_witness:
  "rounding id \<and> 0 \<le> (1/2 :: real) \<and> (1/2 :: real) < 1 \<and>
   0 \<le> (1/4 :: real) \<and> (1/4 :: real) < 1 \<and>
   map progressWidth (ticks id 1 [1/2, 1/4] (startProgress ready_page)) = [5, 9, 11] \<and>
   sorted (progress_values id 5 [1/2, 1/4])"
  using simulated_progress_trace [of id "[1/2, 1/4]" ready_page]
  by (simp add: rounding_def ready_page_def advance_def)

subsection \<open>Starting a submission\<close>

text \<open>
  C9. A submission with both files chosen clears the previous result: row count and
  output path read \<^verbatim>\<open>-\<close>, the download reference is \<^verbatim>\<open>null\<close> and the download
  control is disabled.
\<close>

theorem submit_clears_result:
  assumes "salesFiles s \<noteq> []" and "peopleFiles s \<noteq> []"
  shows "rowCount (submit s) = ''-'' \<and> outputPath (submit s) = ''-'' \<and>
         downloadUrl (submit s) = Some JNull \<and> downloadDisabled (submit s)"
  using assms by (simp add: submit_def Let_def startProgress_frame resetOutput_def)

theorem submit_clears_result_witness:
  "salesFiles finished_page \<noteq> [] \<and> peopleFiles finished_page \<noteq> [] \<and>
   rowCount finished_page = ''42'' \<and> \<not> downloadDisabled finished_page \<and>
   rowCount (submit finished_page) = ''-'' \<and> outputPath (submit finished_page) = ''-'' \<and>
   downloadUrl (submit finished_page) = Some JNull \<and> downloadDisabled (submit finished_page)"
proof -
  have h1: "salesFiles finished_page \<noteq> []" and h2: "peopleFiles finished_page \<noteq> []"
    by (simp_all add: finished_page_fields)
  from submit_clears_result [OF h1 h2] h1 h2 finished_page_fields(3) finished_page_fields(6)
  show ?thesis by simp
qed

subsection \<open>Where a failure is shown\<close>




end
